theory Spec2Isabelle
  imports Complex_Main
begin

section \<open>Floating-point scalars and arrays\<close>

text \<open>
  A scalar of a \<^verbatim>\<open>jax.numpy\<close> array is a finite number, one of the two
  infinities, or NaN.  The finite payload is the real number the float denotes.
\<close>

datatype fl = Fin real | PInf | NInf | NaN

fun is_finite :: "fl \<Rightarrow> bool" where
  "is_finite (Fin r) = True"
| "is_finite PInf = False"
| "is_finite NInf = False"
| "is_finite NaN = False"

text \<open>
  The element-wise primitives of \<^verbatim>\<open>jax.numpy\<close> (rounded addition, division,
  \<^verbatim>\<open>exp\<close>, \<^verbatim>\<open>sum\<close>, \<^verbatim>\<open>mean\<close>, ...) are library code outside the repository.  They are
  taken as parameters, so every general theorem below holds for any rounding
  behaviour.  \<open>f_max\<close> is \<^verbatim>\<open>finfo(dtype).max\<close>, the largest finite value of
  the array's dtype.
\<close>

record arith =
  f_add :: "fl \<Rightarrow> fl \<Rightarrow> fl"
  f_sub :: "fl \<Rightarrow> fl \<Rightarrow> fl"
  f_mul :: "fl \<Rightarrow> fl \<Rightarrow> fl"
  f_div :: "fl \<Rightarrow> fl \<Rightarrow> fl"
  f_exp :: "fl \<Rightarrow> fl"
  f_neg :: "fl \<Rightarrow> fl"
  f_sum :: "fl list \<Rightarrow> fl"
  f_mean :: "fl list \<Rightarrow> fl"
  f_max :: real

text \<open>
  \<^verbatim>\<open>jax.numpy.nan_to_num(x, nan=v)\<close> on one entry, with \<^verbatim>\<open>posinf\<close> and
  \<^verbatim>\<open>neginf\<close> left at their defaults \<^verbatim>\<open>finfo(dtype).max\<close> and
  \<^verbatim>\<open>finfo(dtype).min\<close>.  The library makes three replacements one after the
  other, each on the result of the one before:
  \<^verbatim>\<open>x = where(isnan(x), nan, x)\<close>, then
  \<^verbatim>\<open>x = where(isposinf(x), posinf, x)\<close>, then
  \<^verbatim>\<open>x = where(isneginf(x), neginf, x)\<close>.
  So an infinite fill value \<open>v\<close> does not survive: a NaN filled with negative
  infinity leaves as the most negative finite value.
\<close>

definition nan_to_num :: "arith \<Rightarrow> fl \<Rightarrow> fl \<Rightarrow> fl" where
  "nan_to_num A v x =
     (let x1 = (if x = NaN then v else x);
          x2 = (if x1 = PInf then Fin (f_max A) else x1);
          x3 = (if x2 = NInf then Fin (- f_max A) else x2)
      in x3)"

text \<open>
  A two-dimensional array: its second shape entry and its rows
  (\<^verbatim>\<open>shape == (length rows, ncols)\<close>).  A one-dimensional array is a list.
\<close>

record ndarray =
  ncols :: nat
  rows :: "fl list list"

text \<open>
  The exceptions a call can raise.  \<open>ValueError\<close> carries its message; it is
  what the argument checks of the constructor and of \<^verbatim>\<open>posterior\<close> raise, and
  what Python's \<^verbatim>\<open>range\<close> raises on a zero step.  The other three are raised
  by \<^verbatim>\<open>open\<close> and by the array library (operands that do not broadcast, a
  reshape to another size).
\<close>

datatype error =
    ValueError string
  | FileNotFoundError
  | BroadcastError
  | ReshapeError

fun ebind :: "error + 'a \<Rightarrow> ('a \<Rightarrow> error + 'b) \<Rightarrow> error + 'b" where
  "ebind (Inl e) k = Inl e"
| "ebind (Inr a) k = k a"

text \<open>
  \<^verbatim>\<open>a + b\<close> on two one-dimensional arrays: element-wise when the lengths agree,
  broadcast when one of them has length one, an error otherwise.
\<close>

definition vec_add :: "arith \<Rightarrow> fl list \<Rightarrow> fl list \<Rightarrow> error + fl list" where
  "vec_add A xs ys =
     (if length xs = length ys then Inr (map2 (f_add A) xs ys)
      else if length xs = 1 then Inr (map (f_add A (hd xs)) ys)
      else if length ys = 1 then Inr (map (\<lambda>x. f_add A x (hd ys)) xs)
      else Inl BroadcastError)"

section \<open>The collaborators of a Flow\<close>

text \<open>
  The prior (\<^verbatim>\<open>pzflow.utils.Normal\<close>) and the bijectors
  (\<^verbatim>\<open>pzflow.bijectors\<close>) are consumed through their contract only.  A bijector
  is a factory from a PRNG key and the input dimension to initial parameters and
  the forward and inverse functions; each of these takes parameters and a batch
  and returns the transformed batch with one log-determinant per row.
\<close>

type_synonym key = "nat \<times> nat"

record prior_dist =
  prior_sample :: "int \<Rightarrow> int option \<Rightarrow> ndarray"
  prior_log_prob :: "ndarray \<Rightarrow> fl list"

type_synonym 'p apply_fun = "'p \<Rightarrow> ndarray \<Rightarrow> ndarray \<times> fl list"

type_synonym 'p bijector_fun = "key \<Rightarrow> int \<Rightarrow> 'p \<times> 'p apply_fun \<times> 'p apply_fun"

section \<open>The Flow object\<close>

record ('p, 'i) flow =
  input_dim :: int
  info :: 'i
  bijector :: "'p bijector_fun"
  params :: 'p
  forward_fn :: "'p apply_fun"
  inverse_fn :: "'p apply_fun"
  prior :: prior_dist

text \<open>\<^verbatim>\<open>Flow.log_prob\<close>.\<close>

definition log_prob :: "arith \<Rightarrow> ('p, 'i) flow \<Rightarrow> ndarray \<Rightarrow> error + fl list" where
  "log_prob A f inputs =
     (case inverse_fn f (params f) inputs of (u, log_det) \<Rightarrow>
        let lp = prior_log_prob (prior f) u in
        ebind (vec_add A lp log_det) (\<lambda>s. Inr (map (nan_to_num A NInf) s)))"

text \<open>\<^verbatim>\<open>Flow.forward\<close>, \<^verbatim>\<open>Flow.inverse\<close> and \<^verbatim>\<open>Flow.sample\<close>.\<close>

definition forward :: "('p, 'i) flow \<Rightarrow> ndarray \<Rightarrow> ndarray" where
  "forward f inputs = fst (forward_fn f (params f) inputs)"

definition inverse_flow :: "('p, 'i) flow \<Rightarrow> ndarray \<Rightarrow> ndarray" where
  "inverse_flow f inputs = fst (inverse_fn f (params f) inputs)"

definition sample :: "('p, 'i) flow \<Rightarrow> int \<Rightarrow> int option \<Rightarrow> ndarray" where
  "sample f nsamples seed = (let u = prior_sample (prior f) nsamples seed in forward f u)"

section \<open>Posterior on a grid\<close>

text \<open>
  An argument that Python checks with \<^verbatim>\<open>is None\<close> or \<^verbatim>\<open>isinstance(_, int)\<close>:
  \<open>PyInt\<close> is an \<^verbatim>\<open>int\<close> (a \<^verbatim>\<open>bool\<close> is one too), \<open>PyOther\<close> any other
  object.
\<close>

datatype pyobj = PyNone | PyInt int | PyOther

text \<open>
  The bound of a slice \<^verbatim>\<open>a[:c]\<close> or \<^verbatim>\<open>a[c:]\<close> along an axis of length \<open>n\<close>:
  a negative bound counts from the end, and the bound is clamped to \<open>0..n\<close>.
\<close>

definition slice_index :: "nat \<Rightarrow> int \<Rightarrow> nat" where
  "slice_index n c = (if c < 0 then nat (max 0 (int n + c)) else min (nat c) n)"

text \<open>\<^verbatim>\<open>np.repeat(a, k, axis=0)\<close> on the rows and \<^verbatim>\<open>np.tile(g, n)\<close>.\<close>

definition np_repeat :: "'a list \<Rightarrow> nat \<Rightarrow> 'a list" where
  "np_repeat xs k = concat (map (replicate k) xs)"

definition np_tile :: "'a list \<Rightarrow> nat \<Rightarrow> 'a list" where
  "np_tile g n = concat (replicate n g)"

text \<open>\<^verbatim>\<open>np.hstack\<close> of three blocks with the same number of rows.\<close>

definition hstack3 :: "'a list list \<Rightarrow> 'a list list \<Rightarrow> 'a list list \<Rightarrow> 'a list list" where
  "hstack3 as bs cs = map (\<lambda>(a, b, c). a @ b @ c) (zip as (zip bs cs))"

text \<open>
  \<^verbatim>\<open>ops.index_update(a, ops.index[:, c], vals)\<close> on an array with \<open>n\<close> columns:
  row \<open>k\<close> gets \<open>vals[k]\<close> in column \<open>c\<close>.  A negative \<open>c\<close> counts from the
  end; JAX drops an update whose index is out of bounds.
\<close>

definition index_update_col :: "nat \<Rightarrow> 'a list list \<Rightarrow> int \<Rightarrow> 'a list \<Rightarrow> 'a list list" where
  "index_update_col n rs c vals =
     (let j = (if c < 0 then c + int n else c) in
      if 0 \<le> j \<and> j < int n then map (\<lambda>(r, v). r[nat j := v]) (zip rs vals) else rs)"

text \<open>
  Lines 113-132 of \<^verbatim>\<open>posterior\<close>: \<^verbatim>\<open>auto\<close> is resolved from the column count,
  then the batch is expanded, one row per input row and grid point.
\<close>

definition resolve_mode :: "int \<Rightarrow> nat \<Rightarrow> string \<Rightarrow> string" where
  "resolve_mode d n mode =
     (if mode = ''auto'' then
        (if int n = d - 1 then ''insert'' else if int n = d then ''replace'' else mode)
      else mode)"

definition expand_inputs :: "string \<Rightarrow> ndarray \<Rightarrow> fl list \<Rightarrow> int \<Rightarrow> ndarray" where
  "expand_inputs mode inputs grid column =
     (let nrows = length (rows inputs); n = ncols inputs; k = slice_index n column in
      if mode = ''insert'' then
        \<lparr> ncols = k + 1 + (n - k),
          rows = hstack3
            (np_repeat (map (take k) (rows inputs)) (length grid))
            (map (\<lambda>g. [g]) (np_tile grid nrows))
            (np_repeat (map (drop k) (rows inputs)) (length grid)) \<rparr>
      else if mode = ''replace'' then
        \<lparr> ncols = n,
          rows = index_update_col n (np_repeat (rows inputs) (length grid)) column
                   (np_tile grid nrows) \<rparr>
      else inputs)"

text \<open>
  \<^verbatim>\<open>v.reshape((nrows, g))\<close> of a one-dimensional array: an error unless the sizes
  agree, else row \<open>i\<close> is the \<open>i\<close>-th run of \<open>g\<close> entries.
\<close>

definition reshape2 :: "nat \<Rightarrow> nat \<Rightarrow> 'a list \<Rightarrow> error + 'a list list" where
  "reshape2 nrows g v =
     (if length v = nrows * g then Inr (map (\<lambda>i. take g (drop (i * g) v)) [0..<nrows])
      else Inl ReshapeError)"

text \<open>
  \<^verbatim>\<open>jax.numpy.trapz(y, x)\<close> along the last axis, for one row \<open>y\<close>:
  \<^verbatim>\<open>0.5 * (diff(x) * (y[1:] + y[:-1])).sum()\<close>.
\<close>

definition np_diff :: "arith \<Rightarrow> fl list \<Rightarrow> fl list" where
  "np_diff A x = map2 (f_sub A) (tl x) (butlast x)"

definition trapz :: "arith \<Rightarrow> fl list \<Rightarrow> fl list \<Rightarrow> fl" where
  "trapz A y x =
     f_mul A (Fin (1 / 2))
       (f_sum A (map2 (f_mul A) (np_diff A x) (map2 (f_add A) (tl y) (butlast y))))"

text \<open>
  Lines 135-138 of \<^verbatim>\<open>posterior\<close>, on the reshaped log-probabilities: exponentiate,
  divide each row by its trapezoidal integral over the grid, and apply
  \<^verbatim>\<open>nan_to_num(nan=0.0)\<close>.
\<close>

definition normalized_pdfs :: "arith \<Rightarrow> fl list \<Rightarrow> fl list list \<Rightarrow> ndarray" where
  "normalized_pdfs A grid log_prob2 =
     (let pdfs = map (map (f_exp A)) log_prob2;
          pdfs' = map (\<lambda>r. map (\<lambda>y. f_div A y (trapz A r grid)) r) pdfs
      in \<lparr> ncols = length grid, rows = map (map (nan_to_num A (Fin 0))) pdfs' \<rparr>)"

text \<open>\<^verbatim>\<open>Flow.posterior\<close>.\<close>

definition posterior ::
  "arith \<Rightarrow> ('p, 'i) flow \<Rightarrow> ndarray \<Rightarrow> fl list \<Rightarrow> pyobj \<Rightarrow> string \<Rightarrow> error + ndarray" where
  "posterior A f inputs grid column mode =
     (let nrows = length (rows inputs); n = ncols inputs in
      if mode \<notin> set [''auto'', ''insert'', ''replace''] then
        Inl (ValueError (''mode `'' @ mode @
          ''` is invalid. Accepted values are `auto`, `insert`, and `replace`''))
      else if mode = ''insert'' \<and> int n \<noteq> input_dim f - 1 then
        Inl (ValueError
          ''When using mode=`insert`, inputs.shape[1] must be equal to input_dim-1'')
      else if mode = ''replace'' \<and> int n \<noteq> input_dim f then
        Inl (ValueError
          ''When using mode=`insert`, inputs.shape[1] must be equal to input_dim'')
      else if int n \<notin> set [input_dim f, input_dim f - 1] then
        Inl (ValueError ''inputs.shape[1] must be equal to input_dim or input_dim-1'')
      else
        (case column of
           PyInt c \<Rightarrow>
             (let mode' = resolve_mode (input_dim f) n mode;
                  inputs' = expand_inputs mode' inputs grid c in
              ebind (log_prob A f inputs') (\<lambda>lp.
              ebind (reshape2 nrows (length grid) lp) (\<lambda>log_prob2.
                Inr (normalized_pdfs A grid log_prob2))))
         | _ \<Rightarrow> Inl (ValueError ''`column` must be an integer'')))"

section \<open>Construction and persistence\<close>

text \<open>
  What \<^verbatim>\<open>jax.random\<close>, \<^verbatim>\<open>jax.grad\<close>, \<^verbatim>\<open>pzflow.utils.Normal\<close> and
  \<^verbatim>\<open>pzflow.bijectors.RollingSplineCoupling\<close> compute is outside the two source
  files; they are parameters.  \<open>grad\<close> evaluates the function it differentiates,
  so it fails where that function fails.
\<close>

record 'p deps =
  random_PRNGKey :: "int \<Rightarrow> key"
  random_split :: "key \<Rightarrow> key \<times> key"
  random_permutation :: "key \<Rightarrow> ndarray \<Rightarrow> ndarray"
  grad :: "('p \<Rightarrow> ndarray \<Rightarrow> error + fl) \<Rightarrow> 'p \<Rightarrow> ndarray \<Rightarrow> error + 'p"
  Normal :: "int \<Rightarrow> prior_dist"
  RollingSplineCoupling :: "int \<Rightarrow> 'p bijector_fun"

text \<open>
  The dictionary that \<^verbatim>\<open>save\<close> writes with \<^verbatim>\<open>dill.dump\<close> and the constructor
  reads back with \<^verbatim>\<open>dill.load\<close>.  The file system maps a path to the dictionary
  stored there; a write succeeds and a read returns what was written.
\<close>

record ('p, 'i) save_dict =
  sd_input_dim :: int
  sd_info :: 'i
  sd_bijector :: "'p bijector_fun"
  sd_params :: 'p

type_synonym ('p, 'i) filesystem = "string \<Rightarrow> ('p, 'i) save_dict option"

text \<open>\<^verbatim>\<open>Flow.__init__(input_dim, bijector, file, info)\<close>.\<close>

definition Flow_init ::
  "'p deps \<Rightarrow> pyobj \<Rightarrow> 'p bijector_fun option \<Rightarrow> string option \<Rightarrow> 'i \<Rightarrow>
   ('p, 'i) filesystem \<Rightarrow> error + ('p, 'i) flow" where
  "Flow_init L input_dim_arg bijector_arg file info_arg fs =
     (if input_dim_arg = PyNone \<and> file = None then
        Inl (ValueError ''User must provide either input_dim or file'')
      else if file \<noteq> None \<and> (input_dim_arg \<noteq> PyNone \<or> bijector_arg \<noteq> None) then
        Inl (ValueError ''If file is provided, please do not provide input_dim or bijector'')
      else
        (case file of
           Some path \<Rightarrow>
             (case fs path of
                None \<Rightarrow> Inl FileNotFoundError
              | Some sd \<Rightarrow>
                  (case sd_bijector sd (random_PRNGKey L 0) (sd_input_dim sd) of
                     (_, forward_fun, inverse_fun) \<Rightarrow>
                       Inr \<lparr> input_dim = sd_input_dim sd, info = sd_info sd,
                             bijector = sd_bijector sd, params = sd_params sd,
                             forward_fn = forward_fun, inverse_fn = inverse_fun,
                             prior = Normal L (sd_input_dim sd) \<rparr>))
         | None \<Rightarrow>
             (case input_dim_arg of
                PyInt d \<Rightarrow>
                  if 0 < d then
                    (let b = (case bijector_arg of
                                None \<Rightarrow> RollingSplineCoupling L d | Some b' \<Rightarrow> b')
                     in case b (random_PRNGKey L 0) d of
                          (p, forward_fun, inverse_fun) \<Rightarrow>
                            Inr \<lparr> input_dim = d, info = info_arg, bijector = b, params = p,
                                  forward_fn = forward_fun, inverse_fn = inverse_fun,
                                  prior = Normal L d \<rparr>)
                  else Inl (ValueError ''input_dim must be a positive integer'')
              | _ \<Rightarrow> Inl (ValueError ''input_dim must be a positive integer''))))"

text \<open>\<^verbatim>\<open>Flow.save(file)\<close>: the file system after the write.\<close>

definition save :: "('p, 'i) flow \<Rightarrow> string \<Rightarrow> ('p, 'i) filesystem \<Rightarrow> ('p, 'i) filesystem" where
  "save f file fs =
     fs(file \<mapsto> \<lparr> sd_input_dim = input_dim f, sd_info = info f,
                    sd_bijector = bijector f, sd_params = params f \<rparr>)"

section \<open>Training\<close>

type_synonym ('p, 's) optimizer = "('p \<Rightarrow> 's) \<times> (int \<Rightarrow> 'p \<Rightarrow> 's \<Rightarrow> 's) \<times> ('s \<Rightarrow> 'p)"

text \<open>The inner functions \<^verbatim>\<open>loss\<close> and \<^verbatim>\<open>step\<close> of \<^verbatim>\<open>train\<close>.\<close>

definition loss :: "arith \<Rightarrow> ('p, 'i) flow \<Rightarrow> 'p \<Rightarrow> ndarray \<Rightarrow> error + fl" where
  "loss A f p x =
     (case inverse_fn f p x of (u, log_det) \<Rightarrow>
        let lp = prior_log_prob (prior f) u in
        ebind (vec_add A lp log_det) (\<lambda>s. Inr (f_neg A (f_mean A s))))"

definition step ::
  "arith \<Rightarrow> 'p deps \<Rightarrow> ('p, 'i) flow \<Rightarrow> ('p, 's) optimizer \<Rightarrow> int \<Rightarrow> 's \<Rightarrow> ndarray \<Rightarrow>
   error + 's" where
  "step A L f opt i opt_state x =
     (case opt of (opt_init, opt_update, get_params) \<Rightarrow>
        let p = get_params opt_state in
        ebind (grad L (loss A f) p x) (\<lambda>gradients. Inr (opt_update i gradients opt_state)))"

text \<open>
  \<^verbatim>\<open>range(0, n, k)\<close>: a zero step raises, a negative step gives no index, a
  positive step gives \<open>0, k, 2k, ...\<close> below \<open>n\<close>.
\<close>

definition range_step :: "nat \<Rightarrow> int \<Rightarrow> error + nat list" where
  "range_step n k =
     (if k = 0 then Inl (ValueError ''range() arg 3 must not be zero'')
      else if k < 0 then Inr []
      else Inr (map (\<lambda>j. j * nat k) [0..<(n + nat k - 1) div nat k]))"

text \<open>\<^verbatim>\<open>X[b : b + k]\<close> on the rows, for \<open>b \<ge> 0\<close> and \<open>k > 0\<close>.\<close>

definition slice_rows :: "ndarray \<Rightarrow> nat \<Rightarrow> nat \<Rightarrow> ndarray" where
  "slice_rows X b k = X\<lparr> rows := take k (drop b (rows X)) \<rparr>"

text \<open>
  The inner loop over the batches of one epoch.  \<open>ic\<close> is the next value of
  \<^verbatim>\<open>itercount\<close>.
\<close>

fun run_batches ::
  "(int \<Rightarrow> 's \<Rightarrow> ndarray \<Rightarrow> error + 's) \<Rightarrow> ndarray \<Rightarrow> nat \<Rightarrow> nat list \<Rightarrow> nat \<Rightarrow> 's \<Rightarrow>
   error + (nat \<times> 's)" where
  "run_batches stp X k [] ic opt_state = Inr (ic, opt_state)"
| "run_batches stp X k (b # bs) ic opt_state =
     ebind (stp (int ic) opt_state (slice_rows X b k))
       (\<lambda>opt_state'. run_batches stp X k bs (Suc ic) opt_state')"

text \<open>
  One pass of the body of the epoch loop, without the loss bookkeeping: the
  generator state, the counter and the optimizer state after the epoch.
\<close>

definition epoch ::
  "arith \<Rightarrow> 'p deps \<Rightarrow> ('p, 'i) flow \<Rightarrow> ('p, 's) optimizer \<Rightarrow> ndarray \<Rightarrow> int \<Rightarrow>
   key \<times> nat \<times> 's \<Rightarrow> error + (key \<times> nat \<times> 's)" where
  "epoch A L f opt inputs batch_size st =
     (case st of (rng, ic, opt_state) \<Rightarrow>
      case random_split L rng of (permute_rng, rng') \<Rightarrow>
        let X = random_permutation L permute_rng inputs in
        ebind (range_step (length (rows X)) batch_size) (\<lambda>idxs.
        ebind (run_batches (step A L f opt) X (nat batch_size) idxs ic opt_state)
          (\<lambda>(ic', opt_state'). Inr (rng', ic', opt_state'))))"

text \<open>The epoch loop: \<open>n\<close> epochs are left, \<open>losses\<close> is the list so far.\<close>

fun run_epochs ::
  "arith \<Rightarrow> 'p deps \<Rightarrow> ('p, 'i) flow \<Rightarrow> ('p, 's) optimizer \<Rightarrow> ndarray \<Rightarrow> int \<Rightarrow> nat \<Rightarrow>
   key \<times> nat \<times> 's \<Rightarrow> fl list \<Rightarrow> error + ((key \<times> nat \<times> 's) \<times> fl list)" where
  "run_epochs A L f opt inputs batch_size 0 st losses = Inr (st, losses)"
| "run_epochs A L f opt inputs batch_size (Suc n) st losses =
     (case opt of (opt_init, opt_update, get_params) \<Rightarrow>
        ebind (epoch A L f opt inputs batch_size st) (\<lambda>st'.
          let p = get_params (snd (snd st')) in
          ebind (loss A f p inputs) (\<lambda>l.
            run_epochs A L f opt inputs batch_size n st' (losses @ [l]))))"

text \<open>
  \<^verbatim>\<open>Flow.train\<close>: the list of losses and the Flow after the call.
  \<^verbatim>\<open>range(epochs)\<close> is empty for \<open>epochs \<le> 0\<close>.  \<^verbatim>\<open>verbose\<close> only prints.
\<close>

definition train ::
  "arith \<Rightarrow> 'p deps \<Rightarrow> ('p, 'i) flow \<Rightarrow> ndarray \<Rightarrow> int \<Rightarrow> int \<Rightarrow> ('p, 's) optimizer \<Rightarrow> int \<Rightarrow>
   bool \<Rightarrow> error + (fl list \<times> ('p, 'i) flow)" where
  "train A L f inputs epochs batch_size opt seed verbose =
     (case opt of (opt_init, opt_update, get_params) \<Rightarrow>
        let opt_state = opt_init (params f) in
        ebind (loss A f (params f) inputs) (\<lambda>l0.
        ebind (run_epochs A L f opt inputs batch_size (nat epochs)
                 (random_PRNGKey L seed, 0, opt_state) [l0])
          (\<lambda>(st, losses). Inr (losses, f\<lparr> params := get_params (snd (snd st)) \<rparr>))))"

section \<open>Calls on a Flow object\<close>

text \<open>
  The object and the file system before and after a method call.  An exception
  leaves both as they are at the moment it is raised.
\<close>

datatype ('p, 's) call =
    Forward ndarray
  | Inverse ndarray
  | Sample int "int option"
  | LogProb ndarray
  | Posterior ndarray "fl list" pyobj string
  | Save string
  | Train ndarray int int "('p, 's) optimizer" int bool

datatype outcome =
    RetArray ndarray
  | RetVector "fl list"
  | RetNone
  | Raised error

record ('p, 'i) world =
  the_flow :: "('p, 'i) flow"
  files :: "('p, 'i) filesystem"

fun exec ::
  "arith \<Rightarrow> 'p deps \<Rightarrow> ('p, 'i) world \<Rightarrow> ('p, 's) call \<Rightarrow> outcome \<times> ('p, 'i) world" where
  "exec A L w (Forward x) = (RetArray (forward (the_flow w) x), w)"
| "exec A L w (Inverse x) = (RetArray (inverse_flow (the_flow w) x), w)"
| "exec A L w (Sample n seed) = (RetArray (sample (the_flow w) n seed), w)"
| "exec A L w (LogProb x) =
     (case log_prob A (the_flow w) x of
        Inl e \<Rightarrow> (Raised e, w)
      | Inr v \<Rightarrow> (RetVector v, w))"
| "exec A L w (Posterior x grid column mode) =
     (case posterior A (the_flow w) x grid column mode of
        Inl e \<Rightarrow> (Raised e, w)
      | Inr a \<Rightarrow> (RetArray a, w))"
| "exec A L w (Save file) = (RetNone, w\<lparr> files := save (the_flow w) file (files w) \<rparr>)"
| "exec A L w (Train x epochs batch_size opt seed verbose) =
     (case train A L (the_flow w) x epochs batch_size opt seed verbose of
        Inl e \<Rightarrow> (Raised e, w)
      | Inr (losses, f') \<Rightarrow> (RetVector losses, w\<lparr> the_flow := f' \<rparr>))"

text \<open>
  The invariant of a Flow object: the stored functions are the ones its bijector
  factory returns for the fixed key and the object's dimension, and the prior is
  the normal distribution of that dimension.
\<close>

definition consistent :: "'p deps \<Rightarrow> ('p, 'i) flow \<Rightarrow> bool" where
  "consistent L f =
     (forward_fn f = fst (snd (bijector f (random_PRNGKey L 0) (input_dim f))) \<and>
      inverse_fn f = snd (snd (bijector f (random_PRNGKey L 0) (input_dim f))) \<and>
      prior f = Normal L (input_dim f))"

text \<open>
  The contract of the collaborators on one batch: the inverse map and the prior
  each return one entry per row.
\<close>

definition conforms :: "('p, 'i) flow \<Rightarrow> ndarray \<Rightarrow> bool" where
  "conforms f x =
     (length (snd (inverse_fn f (params f) x)) = length (rows x) \<and>
      length (prior_log_prob (prior f) (fst (inverse_fn f (params f) x))) = length (rows x))"

text \<open>
  The row that the expansion builds from an input row \<open>r\<close> and a grid value
  \<open>g\<close>, to state the order of the expanded batch with.  In mode \<open>insert\<close>
  the value is put between the part of the row before the slice bound of
  \<open>column\<close> and the part from it on.  In mode \<open>replace\<close> it overwrites
  coordinate \<open>column\<close> (counted from the end when negative) when the row has
  that coordinate; for a \<open>column\<close> out of range the row stays as it is,
  since the update is dropped.
\<close>

definition expanded_row :: "string \<Rightarrow> nat \<Rightarrow> int \<Rightarrow> 'a list \<Rightarrow> 'a \<Rightarrow> 'a list" where
  "expanded_row mode n c r g =
     (if mode = ''insert'' then take (slice_index n c) r @ [g] @ drop (slice_index n c) r
      else if 0 \<le> (if c < 0 then c + int n else c) \<and> (if c < 0 then c + int n else c) < int n
      then r[nat (if c < 0 then c + int n else c) := g]
      else r)"

text \<open>
  The generator state, the counter and the optimizer state after \<open>k\<close>
  epochs, from the state \<open>st\<close> before the first of them: what the
  specification calls the parameters as they stand after all batches of an
  epoch is \<open>get_params\<close> of its third component.
\<close>

fun epochs_state ::
  "arith \<Rightarrow> 'p deps \<Rightarrow> ('p, 'i) flow \<Rightarrow> ('p, 's) optimizer \<Rightarrow> ndarray \<Rightarrow> int \<Rightarrow>
   key \<times> nat \<times> 's \<Rightarrow> nat \<Rightarrow> error + (key \<times> nat \<times> 's)" where
  "epochs_state A L f opt inputs batch_size st 0 = Inr st"
| "epochs_state A L f opt inputs batch_size st (Suc k) =
     ebind (epoch A L f opt inputs batch_size st)
       (\<lambda>st'. epochs_state A L f opt inputs batch_size st' k)"

section \<open>Concrete collaborators\<close>

text \<open>
  An arithmetic for concrete runs: the IEEE rules on NaN and the infinities,
  and the exact real result on finite operands.  It is not the arithmetic of
  the program: it does not round, overflow or underflow.  No general theorem
  below depends on it, and the values that the concrete runs below assert are
  ones that single precision computes exactly.
\<close>

fun ideal_add :: "fl \<Rightarrow> fl \<Rightarrow> fl" where
  "ideal_add NaN y = NaN"
| "ideal_add x NaN = NaN"
| "ideal_add PInf NInf = NaN"
| "ideal_add NInf PInf = NaN"
| "ideal_add PInf y = PInf"
| "ideal_add x PInf = PInf"
| "ideal_add NInf y = NInf"
| "ideal_add x NInf = NInf"
| "ideal_add (Fin a) (Fin b) = Fin (a + b)"

fun ideal_neg :: "fl \<Rightarrow> fl" where
  "ideal_neg NaN = NaN"
| "ideal_neg PInf = NInf"
| "ideal_neg NInf = PInf"
| "ideal_neg (Fin a) = Fin (- a)"

definition ideal_sub :: "fl \<Rightarrow> fl \<Rightarrow> fl" where
  "ideal_sub x y = ideal_add x (ideal_neg y)"

fun ideal_mul :: "fl \<Rightarrow> fl \<Rightarrow> fl" where
  "ideal_mul NaN y = NaN"
| "ideal_mul x NaN = NaN"
| "ideal_mul (Fin a) (Fin b) = Fin (a * b)"
| "ideal_mul (Fin a) PInf = (if a = 0 then NaN else if 0 < a then PInf else NInf)"
| "ideal_mul (Fin a) NInf = (if a = 0 then NaN else if 0 < a then NInf else PInf)"
| "ideal_mul PInf (Fin b) = (if b = 0 then NaN else if 0 < b then PInf else NInf)"
| "ideal_mul NInf (Fin b) = (if b = 0 then NaN else if 0 < b then NInf else PInf)"
| "ideal_mul PInf PInf = PInf"
| "ideal_mul PInf NInf = NInf"
| "ideal_mul NInf PInf = NInf"
| "ideal_mul NInf NInf = PInf"

fun ideal_div :: "fl \<Rightarrow> fl \<Rightarrow> fl" where
  "ideal_div NaN y = NaN"
| "ideal_div x NaN = NaN"
| "ideal_div (Fin a) (Fin b) =
     (if b = 0 then (if a = 0 then NaN else if 0 < a then PInf else NInf) else Fin (a / b))"
| "ideal_div (Fin a) PInf = Fin 0"
| "ideal_div (Fin a) NInf = Fin 0"
| "ideal_div PInf (Fin b) = (if 0 \<le> b then PInf else NInf)"
| "ideal_div NInf (Fin b) = (if 0 \<le> b then NInf else PInf)"
| "ideal_div PInf y = NaN"
| "ideal_div NInf y = NaN"

fun ideal_exp :: "fl \<Rightarrow> fl" where
  "ideal_exp NaN = NaN"
| "ideal_exp PInf = PInf"
| "ideal_exp NInf = Fin 0"
| "ideal_exp (Fin a) = Fin (exp a)"

definition ideal_sum :: "fl list \<Rightarrow> fl" where
  "ideal_sum xs = foldl ideal_add (Fin 0) xs"

definition ideal_mean :: "fl list \<Rightarrow> fl" where
  "ideal_mean xs = ideal_div (ideal_sum xs) (Fin (real (length xs)))"

definition ideal_arith :: "real \<Rightarrow> arith" where
  "ideal_arith m =
     \<lparr> f_add = ideal_add, f_sub = ideal_sub, f_mul = ideal_mul, f_div = ideal_div,
       f_exp = ideal_exp, f_neg = ideal_neg, f_sum = ideal_sum, f_mean = ideal_mean,
       f_max = m \<rparr>"

text \<open>
  The largest finite single-precision value, \<open>(2 - 2\<^sup>-\<^sup>2\<^sup>3) \<times> 2\<^sup>1\<^sup>2\<^sup>7\<close>, and the
  exact arithmetic with that value as \<open>f_max\<close>.
\<close>

definition float32_max :: real where
  "float32_max = 340282346638528859811704183484516925440"

definition arith32 :: arith where
  "arith32 = ideal_arith float32_max"

text \<open>
  A bijector that shifts every coordinate by its one parameter (log-determinant
  zero), a prior with the log-density \<open>- |x|\<^sup>2 / 2\<close> of the standard normal up
  to its constant, and stand-ins for the random generator, the gradient and
  the optimizer.
\<close>

definition shift_apply :: "(fl \<Rightarrow> fl \<Rightarrow> fl) \<Rightarrow> real apply_fun" where
  "shift_apply opn p x =
     (x\<lparr> rows := map (map (\<lambda>v. opn v (Fin p))) (rows x) \<rparr>, map (\<lambda>r. Fin 0) (rows x))"

definition shift_bijector :: "real bijector_fun" where
  "shift_bijector k d = (0, shift_apply ideal_add, shift_apply ideal_sub)"

definition normal_log_prob :: "ndarray \<Rightarrow> fl list" where
  "normal_log_prob x =
     map (\<lambda>r. ideal_neg (ideal_mul (Fin (1 / 2)) (ideal_sum (map (\<lambda>v. ideal_mul v v) r))))
       (rows x)"

definition normal_prior :: "int \<Rightarrow> prior_dist" where
  "normal_prior d =
     \<lparr> prior_sample = (\<lambda>n seed. \<lparr> ncols = nat d, rows = replicate (nat n) (replicate (nat d) (Fin 0)) \<rparr>),
       prior_log_prob = normal_log_prob \<rparr>"

definition toy_deps :: "real deps" where
  "toy_deps =
     \<lparr> random_PRNGKey = (\<lambda>seed. (0, nat seed)),
       random_split = (\<lambda>(a, b). ((a, 2 * b), (a, 2 * b + 1))),
       random_permutation = (\<lambda>k x. x\<lparr> rows := rev (rows x) \<rparr>),
       grad = (\<lambda>l p x. ebind (l p x) (\<lambda>v. Inr 1)),
       Normal = normal_prior,
       RollingSplineCoupling = (\<lambda>d. shift_bijector) \<rparr>"

definition toy_optimizer :: "(real, real) optimizer" where
  "toy_optimizer = ((\<lambda>p. p), (\<lambda>i g s. s - g / 2), (\<lambda>s. s))"

definition toy_flow :: "int \<Rightarrow> (real, unit) flow" where
  "toy_flow d =
     \<lparr> input_dim = d, info = (), bijector = shift_bijector, params = 0,
       forward_fn = shift_apply ideal_add, inverse_fn = shift_apply ideal_sub,
       prior = normal_prior d \<rparr>"

section \<open>Properties of \<open>log_prob\<close>\<close>

lemma nan_to_num_simps [simp]:
  "nan_to_num A v (Fin r) = Fin r"
  "nan_to_num A v PInf = Fin (f_max A)"
  "nan_to_num A v NInf = Fin (- f_max A)"
  "nan_to_num A (Fin r) NaN = Fin r"
  "nan_to_num A PInf NaN = Fin (f_max A)"
  "nan_to_num A NInf NaN = Fin (- f_max A)"
  "nan_to_num A NaN NaN = NaN"
  by (simp_all add: nan_to_num_def)

lemma vec_add_same_length:
  "length xs = length ys \<Longrightarrow> vec_add A xs ys = Inr (map2 (f_add A) xs ys)"
  by (simp add: vec_add_def)

lemma log_prob_eq:
  "inverse_fn f (params f) x = (u, log_det) \<Longrightarrow>
   log_prob A f x =
     ebind (vec_add A (prior_log_prob (prior f) u) log_det)
       (\<lambda>s. Inr (map (nan_to_num A NInf) s))"
  by (simp add: log_prob_def)

lemma log_prob_conforms:
  assumes "conforms f x"
  shows "log_prob A f x =
    Inr (map (nan_to_num A NInf)
      (map2 (f_add A) (prior_log_prob (prior f) (fst (inverse_fn f (params f) x)))
         (snd (inverse_fn f (params f) x))))"
proof -
  obtain u log_det where inv: "inverse_fn f (params f) x = (u, log_det)"
    by (cases "inverse_fn f (params f) x")
  with assms have "length (prior_log_prob (prior f) u) = length log_det"
    by (simp add: conforms_def)
  with inv show ?thesis
    by (simp add: log_prob_eq vec_add_same_length)
qed

lemma log_prob_length:
  "conforms f x \<Longrightarrow> log_prob A f x = Inr v \<Longrightarrow> length v = length (rows x)"
  by (auto simp: log_prob_conforms conforms_def)

lemmas toy_defs =
  toy_flow_def shift_apply_def normal_prior_def normal_log_prob_def arith32_def
  ideal_arith_def ideal_sum_def ideal_sub_def

text \<open>
  C1.  What \<open>log_prob\<close> does with the sum \<open>prior.log_prob(latent) + log_det\<close>
  where that sum is defined: it returns a vector of the same length in which
  every entry is finite.  A NaN of the sum is first filled with negative
  infinity, as line 81 asks, and that infinity is then replaced with the most
  negative finite value; a positive infinity becomes the largest finite value,
  a negative infinity the most negative finite value, and a finite entry is
  unchanged.  So no NaN is returned, and no negative infinity either.
\<close>

theorem log_prob_entries:
  assumes inv: "inverse_fn f (params f) x = (u, log_det)"
    and sum: "vec_add A (prior_log_prob (prior f) u) log_det = Inr s"
  shows "\<exists>out. log_prob A f x = Inr out \<and> length out = length s \<and>
    (\<forall>i < length s.
       is_finite (out ! i) \<and>
       (case s ! i of
          NaN \<Rightarrow> out ! i = Fin (- f_max A)
        | PInf \<Rightarrow> out ! i = Fin (f_max A)
        | NInf \<Rightarrow> out ! i = Fin (- f_max A)
        | Fin r \<Rightarrow> out ! i = Fin r))"
proof -
  have out: "log_prob A f x = Inr (map (nan_to_num A NInf) s)"
    using inv sum by (simp add: log_prob_eq)
  have "is_finite (map (nan_to_num A NInf) s ! i) \<and>
       (case s ! i of NaN \<Rightarrow> map (nan_to_num A NInf) s ! i = Fin (- f_max A)
        | PInf \<Rightarrow> map (nan_to_num A NInf) s ! i = Fin (f_max A)
        | NInf \<Rightarrow> map (nan_to_num A NInf) s ! i = Fin (- f_max A)
        | Fin r \<Rightarrow> map (nan_to_num A NInf) s ! i = Fin r)" if "i < length s" for i
    using that by (cases "s ! i") simp_all
  with out show ?thesis
    by simp
qed

theorem log_prob_entries_witness:
  "\<exists>out. log_prob arith32 (toy_flow 1) \<lparr> ncols = 1, rows = [[NaN], [PInf], [Fin 1]] \<rparr> = Inr out \<and>
     length out = 3 \<and> out ! 0 = Fin (- float32_max) \<and> out ! 0 \<noteq> NInf \<and>
     out ! 1 = Fin (- float32_max) \<and> out ! 2 = Fin (- (1 / 2))"
proof -
  let ?x = "\<lparr> ncols = 1, rows = [[NaN], [PInf], [Fin 1]] \<rparr>"
  have inv: "inverse_fn (toy_flow 1) (params (toy_flow 1)) ?x =
      (?x, [Fin 0, Fin 0, Fin 0])"
    by (simp add: toy_defs)
  have sum: "vec_add arith32 (prior_log_prob (prior (toy_flow 1)) ?x) [Fin 0, Fin 0, Fin 0] =
      Inr [NaN, NInf, Fin (- (1 / 2))]"
    by (simp add: toy_defs vec_add_def)
  from log_prob_entries [OF inv sum]
  obtain out where o: "log_prob arith32 (toy_flow 1) ?x = Inr out" "length out = 3"
    and e: "\<forall>i<3. is_finite (out ! i) \<and>
       (case [NaN, NInf, Fin (- (1 / 2))] ! i of
          NaN \<Rightarrow> out ! i = Fin (- f_max arith32)
        | PInf \<Rightarrow> out ! i = Fin (f_max arith32)
        | NInf \<Rightarrow> out ! i = Fin (- f_max arith32)
        | Fin r \<Rightarrow> out ! i = Fin r)"
    by auto
  have "out ! 0 = Fin (- float32_max)"
    using e [rule_format, of 0] by (simp add: arith32_def ideal_arith_def)
  moreover have "out ! 1 = Fin (- float32_max)"
    using e [rule_format, of 1] by (simp add: arith32_def ideal_arith_def)
  moreover have "out ! 2 = Fin (- (1 / 2))"
    using e [rule_format, of 2] by simp
  ultimately show ?thesis using o by simp
qed

text \<open>
  The same on the one-row batch \<open>[[nan]]\<close>: the sum is NaN, and the entry
  returned is the most negative finite value, not negative infinity.
\<close>

lemma log_prob_at_nan:
  "vec_add arith32
     (prior_log_prob (prior (toy_flow 1))
        (fst (inverse_fn (toy_flow 1) (params (toy_flow 1)) \<lparr> ncols = 1, rows = [[NaN]] \<rparr>)))
     (snd (inverse_fn (toy_flow 1) (params (toy_flow 1)) \<lparr> ncols = 1, rows = [[NaN]] \<rparr>))
     = Inr [NaN] \<and>
   log_prob arith32 (toy_flow 1) \<lparr> ncols = 1, rows = [[NaN]] \<rparr> = Inr [Fin (- float32_max)] \<and>
   Fin (- float32_max) \<noteq> NInf"
  by (simp add: log_prob_def toy_defs vec_add_def)

section \<open>Argument checks\<close>

lemma log_prob_no_ValueError: "log_prob A f x \<noteq> Inl (ValueError m)"
  by (auto simp: log_prob_def vec_add_def Let_def split: prod.splits if_splits)

lemma reshape2_no_ValueError: "reshape2 n g v \<noteq> Inl (ValueError m)"
  by (simp add: reshape2_def)

lemma posterior_computation_no_ValueError:
  "ebind (log_prob A f x) (\<lambda>lp. ebind (reshape2 n g lp) (\<lambda>l2. Inr (h l2))) \<noteq> Inl (ValueError m)"
  by (cases "log_prob A f x"; cases "reshape2 n g (projr (log_prob A f x))")
     (auto simp: log_prob_no_ValueError reshape2_no_ValueError)

text \<open>
  Once the checks pass, \<open>posterior\<close> is the computation on the expanded batch
  of the resolved mode.
\<close>

lemma posterior_insert:
  assumes "int (ncols inputs) = input_dim f - 1" and "mode = ''insert'' \<or> mode = ''auto''"
  shows "posterior A f inputs grid (PyInt c) mode =
    ebind (log_prob A f (expand_inputs ''insert'' inputs grid c)) (\<lambda>lp.
    ebind (reshape2 (length (rows inputs)) (length grid) lp) (\<lambda>log_prob2.
      Inr (normalized_pdfs A grid log_prob2)))"
  using assms by (auto simp: posterior_def resolve_mode_def Let_def)

lemma posterior_replace:
  assumes "int (ncols inputs) = input_dim f" and "mode = ''replace'' \<or> mode = ''auto''"
  shows "posterior A f inputs grid (PyInt c) mode =
    ebind (log_prob A f (expand_inputs ''replace'' inputs grid c)) (\<lambda>lp.
    ebind (reshape2 (length (rows inputs)) (length grid) lp) (\<lambda>log_prob2.
      Inr (normalized_pdfs A grid log_prob2)))"
  using assms by (auto simp: posterior_def resolve_mode_def Let_def)

lemma posterior_error_independent:
  assumes "input_dim f' = input_dim f" and "ncols inputs' = ncols inputs"
  shows "posterior A f inputs grid column mode =
     (if mode \<notin> {''auto'', ''insert'', ''replace''} \<or>
         (mode = ''insert'' \<and> int (ncols inputs) \<noteq> input_dim f - 1) \<or>
         (mode = ''replace'' \<and> int (ncols inputs) \<noteq> input_dim f) \<or>
         (int (ncols inputs) \<noteq> input_dim f \<and> int (ncols inputs) \<noteq> input_dim f - 1) \<or>
         (\<forall>c. column \<noteq> PyInt c)
      then posterior A' f' inputs' grid' column mode
      else posterior A f inputs grid column mode)"
  using assms unfolding posterior_def Let_def
  by (cases column) simp_all

lemma posterior_ValueError_iff:
  "(\<exists>m. posterior A f inputs grid column mode = Inl (ValueError m)) =
      (mode \<notin> {''auto'', ''insert'', ''replace''} \<or>
       (mode = ''insert'' \<and> int (ncols inputs) \<noteq> input_dim f - 1) \<or>
       (mode = ''replace'' \<and> int (ncols inputs) \<noteq> input_dim f) \<or>
       (int (ncols inputs) \<noteq> input_dim f \<and> int (ncols inputs) \<noteq> input_dim f - 1) \<or>
       (\<forall>c. column \<noteq> PyInt c))"
  unfolding posterior_def Let_def
  by (cases column) (auto simp: posterior_computation_no_ValueError)

text \<open>
  C4.  \<open>posterior\<close> raises a \<open>ValueError\<close> exactly when the mode is not one of
  the three, or the mode is \<open>insert\<close> and the column count is not
  \<open>input_dim - 1\<close>, or the mode is \<open>replace\<close> and the column count is not
  \<open>input_dim\<close>, or the column count is neither, or \<open>column\<close> is not an integer.
  The error is raised before anything is computed: it is the same for every
  arithmetic, grid, row content, bijector, prior and parameters, and the call
  leaves the object and the file system as they were.
\<close>

theorem posterior_validation:
  "((\<exists>m. posterior A f inputs grid column mode = Inl (ValueError m)) =
      (mode \<notin> {''auto'', ''insert'', ''replace''} \<or>
       (mode = ''insert'' \<and> int (ncols inputs) \<noteq> input_dim f - 1) \<or>
       (mode = ''replace'' \<and> int (ncols inputs) \<noteq> input_dim f) \<or>
       (int (ncols inputs) \<noteq> input_dim f \<and> int (ncols inputs) \<noteq> input_dim f - 1) \<or>
       (\<forall>c. column \<noteq> PyInt c))) \<and>
   (\<forall>m. posterior A f inputs grid column mode = Inl (ValueError m) \<longrightarrow>
        input_dim f' = input_dim f \<longrightarrow> ncols inputs' = ncols inputs \<longrightarrow>
        posterior A' f' inputs' grid' column mode = Inl (ValueError m)) \<and>
   snd (exec A L w (Posterior inputs grid column mode)) = w"
proof (intro conjI allI impI)
  show "snd (exec A L w (Posterior inputs grid column mode)) = w"
    by (simp split: sum.split)
next
  show "(\<exists>m. posterior A f inputs grid column mode = Inl (ValueError m)) =
      (mode \<notin> {''auto'', ''insert'', ''replace''} \<or>
       (mode = ''insert'' \<and> int (ncols inputs) \<noteq> input_dim f - 1) \<or>
       (mode = ''replace'' \<and> int (ncols inputs) \<noteq> input_dim f) \<or>
       (int (ncols inputs) \<noteq> input_dim f \<and> int (ncols inputs) \<noteq> input_dim f - 1) \<or>
       (\<forall>c. column \<noteq> PyInt c))"
    by (rule posterior_ValueError_iff)
next
  fix m
  assume raised: "posterior A f inputs grid column mode = Inl (ValueError m)"
    and same: "input_dim f' = input_dim f" "ncols inputs' = ncols inputs"
  from raised have "\<exists>m. posterior A f inputs grid column mode = Inl (ValueError m)" ..
  then have "posterior A f inputs grid column mode = posterior A' f' inputs' grid' column mode"
    unfolding posterior_ValueError_iff
    using posterior_error_independent [OF same, of A grid column mode A' grid']
    by (simp only: if_True)
  with raised show "posterior A' f' inputs' grid' column mode = Inl (ValueError m)"
    by simp
qed

theorem posterior_validation_witness:
  "(\<exists>m. posterior arith32 (toy_flow 2) \<lparr> ncols = 3, rows = [[Fin 0, Fin 0, Fin 0]] \<rparr>
          [Fin 0, Fin 1] (PyInt 0) ''auto'' = Inl (ValueError m)) \<and>
   (\<exists>m. posterior arith32 (toy_flow 2) \<lparr> ncols = 2, rows = [[Fin 0, Fin 0]] \<rparr>
          [Fin 0, Fin 1] PyOther ''auto'' = Inl (ValueError m)) \<and>
   (\<nexists>m. posterior arith32 (toy_flow 2) \<lparr> ncols = 2, rows = [[Fin 0, Fin 0]] \<rparr>
          [Fin 0, Fin 1] (PyInt 0) ''auto'' = Inl (ValueError m))"
proof -
  have d: "input_dim (toy_flow 2) = 2"
    by (simp add: toy_flow_def)
  note v = posterior_validation [THEN conjunct1, of arith32 "toy_flow 2" _ "[Fin 0, Fin 1]" _ "''auto''"]
  have "\<exists>m. posterior arith32 (toy_flow 2) \<lparr> ncols = 3, rows = [[Fin 0, Fin 0, Fin 0]] \<rparr>
          [Fin 0, Fin 1] (PyInt 0) ''auto'' = Inl (ValueError m)"
    unfolding v by (simp add: d)
  moreover have "\<exists>m. posterior arith32 (toy_flow 2) \<lparr> ncols = 2, rows = [[Fin 0, Fin 0]] \<rparr>
          [Fin 0, Fin 1] PyOther ''auto'' = Inl (ValueError m)"
    unfolding v by (simp add: d)
  moreover have "\<nexists>m. posterior arith32 (toy_flow 2) \<lparr> ncols = 2, rows = [[Fin 0, Fin 0]] \<rparr>
          [Fin 0, Fin 1] (PyInt 0) ''auto'' = Inl (ValueError m)"
    unfolding v by (simp add: d)
  ultimately show ?thesis by blast
qed

text \<open>
  C5.  The constructor raises a \<open>ValueError\<close> exactly when neither \<open>input_dim\<close>
  nor \<open>file\<close> is given, or \<open>file\<close> is given together with \<open>input_dim\<close> or
  \<open>bijector\<close>, or \<open>input_dim\<close> is given without \<open>file\<close> and is not a positive
  integer.  The constructor only reads the file system, and a call that
  raises returns no object.
\<close>

theorem Flow_init_validation:
  "(\<exists>m. Flow_init L input_dim_arg bijector_arg file info_arg fs = Inl (ValueError m)) =
     ((input_dim_arg = PyNone \<and> file = None) \<or>
      (file \<noteq> None \<and> (input_dim_arg \<noteq> PyNone \<or> bijector_arg \<noteq> None)) \<or>
      (file = None \<and> input_dim_arg \<noteq> PyNone \<and> (\<nexists>d. input_dim_arg = PyInt d \<and> 0 < d)))"
  unfolding Flow_init_def Let_def
  by (cases input_dim_arg; cases "file"; cases bijector_arg)
     (auto split: prod.splits option.splits)

theorem Flow_init_validation_witness:
  "(\<exists>m. Flow_init toy_deps (PyInt 0) None None () Map.empty = Inl (ValueError m)) \<and>
   (\<exists>m. Flow_init toy_deps (PyInt 2) None (Some ''flow.dill'') () Map.empty =
      Inl (ValueError m)) \<and>
   (\<nexists>m. Flow_init toy_deps (PyInt 2) None None () Map.empty = Inl (ValueError m)) \<and>
   (\<nexists>m. Flow_init toy_deps PyNone None (Some ''flow.dill'') () Map.empty =
      Inl (ValueError m))"
  using Flow_init_validation [of toy_deps "PyInt 0" None None "()" Map.empty]
    Flow_init_validation [of toy_deps "PyInt 2" None "Some ''flow.dill''" "()" Map.empty]
    Flow_init_validation [of toy_deps "PyInt 2" None None "()" Map.empty]
    Flow_init_validation [of toy_deps PyNone None "Some ''flow.dill''" "()" Map.empty]
  by simp

text \<open>
  C7.  On a batch with \<open>input_dim\<close> columns \<open>auto\<close> gives what \<open>replace\<close>
  gives, and on a batch with \<open>input_dim - 1\<close> columns what \<open>insert\<close> gives.
\<close>

theorem posterior_auto_mode:
  "(int (ncols inputs) = input_dim f \<longrightarrow>
      posterior A f inputs grid column ''auto'' = posterior A f inputs grid column ''replace'') \<and>
   (int (ncols inputs) = input_dim f - 1 \<longrightarrow>
      posterior A f inputs grid column ''auto'' = posterior A f inputs grid column ''insert'')"
  by (cases column) (auto simp: posterior_def resolve_mode_def Let_def)

theorem posterior_auto_mode_witness:
  "posterior arith32 (toy_flow 2) \<lparr> ncols = 2, rows = [[Fin 0, Fin 0]] \<rparr> [Fin 0, Fin 1]
     (PyInt 0) ''auto'' =
   posterior arith32 (toy_flow 2) \<lparr> ncols = 2, rows = [[Fin 0, Fin 0]] \<rparr> [Fin 0, Fin 1]
     (PyInt 0) ''replace'' \<and>
   posterior arith32 (toy_flow 2) \<lparr> ncols = 1, rows = [[Fin 0]] \<rparr> [Fin 0, Fin 1]
     (PyInt 0) ''auto'' =
   posterior arith32 (toy_flow 2) \<lparr> ncols = 1, rows = [[Fin 0]] \<rparr> [Fin 0, Fin 1]
     (PyInt 0) ''insert''"
proof -
  have d: "input_dim (toy_flow 2) = 2"
    by (simp add: toy_flow_def)
  show ?thesis
    using posterior_auto_mode [of "\<lparr> ncols = 2, rows = [[Fin 0, Fin 0]] \<rparr>" "toy_flow 2"
        arith32 "[Fin 0, Fin 1]" "PyInt 0"]
      posterior_auto_mode [of "\<lparr> ncols = 1, rows = [[Fin 0]] \<rparr>" "toy_flow 2"
        arith32 "[Fin 0, Fin 1]" "PyInt 0"]
    by (simp add: d)
qed

section \<open>The object across calls\<close>

lemma train_params_only:
  "train A L f x epochs batch_size opt seed verbose = Inr (losses, f') \<Longrightarrow>
   \<exists>p. f' = f\<lparr> params := p \<rparr>"
  by (cases opt; cases "loss A f (params f) x")
     (auto simp: train_def Let_def split: sum.splits prod.splits
        elim!: ebind.elims)

lemma exec_flow:
  "\<exists>p. the_flow (snd (exec A L w c)) = (the_flow w)\<lparr> params := p \<rparr>"
proof (cases c)
  case (Train x epochs batch_size opt seed verbose)
  show ?thesis
  proof (cases "train A L (the_flow w) x epochs batch_size opt seed verbose")
    case (Inl e)
    with Train have "the_flow (snd (exec A L w c)) = (the_flow w)\<lparr> params := params (the_flow w) \<rparr>"
      by simp
    then show ?thesis ..
  next
    case (Inr r)
    obtain losses f' where r: "r = (losses, f')" by (cases r)
    with Inr train_params_only obtain p where "f' = (the_flow w)\<lparr> params := p \<rparr>"
      by blast
    with Train Inr r show ?thesis by auto
  qed
next
  case (Save path)
  then have "the_flow (snd (exec A L w c)) = (the_flow w)\<lparr> params := params (the_flow w) \<rparr>"
    by simp
  then show ?thesis ..
qed (auto split: sum.split intro: exI [of _ "params (the_flow w)"])

text \<open>
  Every object that the constructor returns satisfies the invariant, and every
  method call keeps it.
\<close>

lemma Flow_init_consistent:
  "Flow_init L input_dim_arg bijector_arg file_arg info_arg fs = Inr f \<Longrightarrow> consistent L f"
  unfolding Flow_init_def consistent_def Let_def
  by (auto split: if_splits option.splits pyobj.splits prod.splits)

lemma exec_consistent:
  assumes "consistent L (the_flow w)"
  shows "consistent L (the_flow (snd (exec A L w c)))"
proof -
  obtain p where "the_flow (snd (exec A L w c)) = (the_flow w)\<lparr> params := p \<rparr>"
    using exec_flow [of A L w c] by blast
  with assms show ?thesis by (simp add: consistent_def)
qed

text \<open>
  C9.  A call of \<open>forward\<close>, \<open>inverse\<close>, \<open>sample\<close>, \<open>log_prob\<close>, \<open>posterior\<close> or
  \<open>save\<close> leaves every field of the object as it was; \<open>train\<close> changes no field
  but \<open>params\<close>, and changes nothing when it raises.
\<close>

theorem flow_fields_frame:
  "((\<forall>x epochs batch_size opt seed verbose.
        c \<noteq> Train x epochs batch_size opt seed verbose) \<longrightarrow>
      the_flow (snd (exec A L w c)) = the_flow w) \<and>
   ((\<exists>e. fst (exec A L w c) = Raised e) \<longrightarrow> snd (exec A L w c) = w) \<and>
   (\<exists>p. the_flow (snd (exec A L w c)) = (the_flow w)\<lparr> params := p \<rparr>)"
proof (intro conjI impI)
  assume "\<forall>x epochs batch_size opt seed verbose. c \<noteq> Train x epochs batch_size opt seed verbose"
  then show "the_flow (snd (exec A L w c)) = the_flow w"
    by (cases c) (auto split: sum.split)
next
  assume "\<exists>e. fst (exec A L w c) = Raised e"
  then show "snd (exec A L w c) = w"
    by (cases c) (auto split: sum.splits prod.splits)
next
  show "\<exists>p. the_flow (snd (exec A L w c)) = (the_flow w)\<lparr> params := p \<rparr>"
    by (rule exec_flow)
qed

theorem flow_fields_frame_witness:
  "the_flow (snd (exec arith32 toy_deps \<lparr> the_flow = toy_flow 1, files = Map.empty \<rparr>
      (LogProb \<lparr> ncols = 1, rows = [[Fin 1]] \<rparr> :: (real, real) call))) = toy_flow 1 \<and>
   snd (exec arith32 toy_deps \<lparr> the_flow = toy_flow 1, files = Map.empty \<rparr>
      (Posterior \<lparr> ncols = 1, rows = [[Fin 1]] \<rparr> [Fin 0, Fin 1] (PyInt 0) ''nearest''
         :: (real, real) call)) = \<lparr> the_flow = toy_flow 1, files = Map.empty \<rparr>"
proof -
  let ?w = "\<lparr> the_flow = toy_flow 1, files = Map.empty \<rparr> :: (real, unit) world"
  let ?c = "LogProb \<lparr> ncols = 1, rows = [[Fin 1]] \<rparr> :: (real, real) call"
  let ?d = "Posterior \<lparr> ncols = 1, rows = [[Fin 1]] \<rparr> [Fin 0, Fin 1] (PyInt 0) ''nearest''
         :: (real, real) call"
  have "the_flow (snd (exec arith32 toy_deps ?w ?c)) = the_flow ?w"
    using flow_fields_frame [of ?c arith32 toy_deps ?w] by simp
  moreover have "fst (exec arith32 toy_deps ?w ?d) =
      Raised (ValueError (''mode `nearest` is invalid. '' @
        ''Accepted values are `auto`, `insert`, and `replace`''))"
    by (simp add: posterior_def)
  then have "snd (exec arith32 toy_deps ?w ?d) = ?w"
    using flow_fields_frame [of ?d arith32 toy_deps ?w] by blast
  ultimately show ?thesis by simp
qed

text \<open>
  C8.  For an object that satisfies the invariant, \<open>save\<close> followed by the
  constructor on the same file gives an object with the same \<open>input_dim\<close>,
  \<open>info\<close> and parameters, and the same \<open>log_prob\<close> on every batch; it is the
  same object in every field.
\<close>

theorem save_restore:
  assumes "consistent L f"
  shows "\<exists>g. Flow_init L PyNone None (Some path) info_arg (save f path fs) = Inr g \<and>
     input_dim g = input_dim f \<and> info g = info f \<and> params g = params f \<and>
     (\<forall>A x. log_prob A g x = log_prob A f x) \<and> g = f"
proof -
  have "Flow_init L PyNone None (Some path) info_arg (save f path fs) = Inr f"
    using assms
    by (simp add: Flow_init_def save_def consistent_def split: prod.split)
  then show ?thesis by simp
qed

theorem save_restore_witness:
  "Flow_init toy_deps PyNone None (Some ''flow.dill'') ()
     (save (toy_flow 2) ''flow.dill'' Map.empty) = Inr (toy_flow 2)"
proof -
  have "consistent toy_deps (toy_flow 2)"
    by (simp add: consistent_def toy_flow_def toy_deps_def shift_bijector_def)
  from save_restore [OF this, of "''flow.dill''" "()" Map.empty]
  show ?thesis by auto
qed

section \<open>The expanded batch\<close>

lemma hstack3_append:
  "length as = length bs \<Longrightarrow> length as = length cs \<Longrightarrow>
   hstack3 (as @ as') (bs @ bs') (cs @ cs') = hstack3 as bs cs @ hstack3 as' bs' cs'"
  by (simp add: hstack3_def)

lemma hstack3_replicate:
  "hstack3 (replicate (length grid) a) (map (\<lambda>g. [g]) grid) (replicate (length grid) b) =
   map (\<lambda>g. a @ [g] @ b) grid"
  by (induction grid) (simp_all add: hstack3_def)

lemma insert_rows:
  "hstack3 (np_repeat (map (take k) rs) (length grid))
     (map (\<lambda>g. [g]) (np_tile grid (length rs)))
     (np_repeat (map (drop k) rs) (length grid)) =
   concat (map (\<lambda>r. map (\<lambda>g. take k r @ [g] @ drop k r) grid) rs)"
proof (induction rs)
  case Nil
  show ?case by (simp add: np_repeat_def np_tile_def hstack3_def)
next
  case (Cons r rs)
  have "hstack3 (np_repeat (map (take k) (r # rs)) (length grid))
     (map (\<lambda>g. [g]) (np_tile grid (length (r # rs))))
     (np_repeat (map (drop k) (r # rs)) (length grid)) =
    hstack3 (replicate (length grid) (take k r) @ np_repeat (map (take k) rs) (length grid))
      (map (\<lambda>g. [g]) grid @ map (\<lambda>g. [g]) (np_tile grid (length rs)))
      (replicate (length grid) (drop k r) @ np_repeat (map (drop k) rs) (length grid))"
    by (simp add: np_repeat_def np_tile_def)
  also have "\<dots> = map (\<lambda>g. take k r @ [g] @ drop k r) grid @
      concat (map (\<lambda>r. map (\<lambda>g. take k r @ [g] @ drop k r) grid) rs)"
    by (simp add: hstack3_append hstack3_replicate Cons.IH)
  finally show ?case by simp
qed

lemma zip_replicate_left: "zip (replicate (length ys) x) ys = map (\<lambda>y. (x, y)) ys"
  by (induction ys) simp_all

lemma replace_rows:
  "map (\<lambda>(r, v). r[j := v]) (zip (np_repeat rs (length grid)) (np_tile grid (length rs))) =
   concat (map (\<lambda>r. map (\<lambda>g. r[j := g]) grid) rs)"
proof (induction rs)
  case Nil
  show ?case by (simp add: np_repeat_def np_tile_def)
next
  case (Cons r rs)
  have "zip (np_repeat (r # rs) (length grid)) (np_tile grid (length (r # rs))) =
      zip (replicate (length grid) r) grid @
      zip (np_repeat rs (length grid)) (np_tile grid (length rs))"
    by (simp add: np_repeat_def np_tile_def)
  then show ?case
    using Cons.IH by (simp add: zip_replicate_left comp_def)
qed

lemma np_repeat_rows:
  "np_repeat rs (length grid) = concat (map (\<lambda>r. map (\<lambda>g. r) grid) rs)"
  by (simp add: np_repeat_def map_replicate_const)

text \<open>The rows of the expanded batch, input row by input row.\<close>

lemma expanded_row_insert:
  "expanded_row ''insert'' n c r =
   (\<lambda>g. take (slice_index n c) r @ [g] @ drop (slice_index n c) r)"
  by (rule ext) (simp add: expanded_row_def)

lemma expanded_row_replace:
  "expanded_row ''replace'' n c r =
   (\<lambda>g. if 0 \<le> (if c < 0 then c + int n else c) \<and> (if c < 0 then c + int n else c) < int n
        then r[nat (if c < 0 then c + int n else c) := g] else r)"
  by (rule ext) (simp add: expanded_row_def)

lemma expand_insert_rows:
  "rows (expand_inputs ''insert'' inputs grid c) =
   concat (map (\<lambda>r. map (expanded_row ''insert'' (ncols inputs) c r) grid) (rows inputs))"
  by (simp add: expand_inputs_def expanded_row_insert Let_def insert_rows)

lemma expand_replace_rows:
  "rows (expand_inputs ''replace'' inputs grid c) =
   concat (map (\<lambda>r. map (expanded_row ''replace'' (ncols inputs) c r) grid) (rows inputs))"
proof -
  define j where "j = (if c < 0 then c + int (ncols inputs) else c)"
  define ok where "ok = (0 \<le> j \<and> j < int (ncols inputs))"
  have er: "expanded_row ''replace'' (ncols inputs) c r =
      (\<lambda>g. if ok then r[nat j := g] else r)" for r :: "fl list"
    unfolding ok_def j_def by (rule expanded_row_replace)
  have ex: "rows (expand_inputs ''replace'' inputs grid c) =
      (if ok then map (\<lambda>(r, v). r[nat j := v])
          (zip (np_repeat (rows inputs) (length grid)) (np_tile grid (length (rows inputs))))
       else np_repeat (rows inputs) (length grid))"
    unfolding ok_def j_def by (simp add: expand_inputs_def index_update_col_def Let_def)
  show ?thesis
  proof (cases ok)
    case True
    then show ?thesis
      unfolding er ex by (simp add: replace_rows)
  next
    case False
    then show ?thesis
      unfolding er ex by (simp add: np_repeat_rows)
  qed
qed

lemma expand_inputs_rows:
  "mode' = ''insert'' \<or> mode' = ''replace'' \<Longrightarrow>
   rows (expand_inputs mode' inputs grid c) =
     concat (map (\<lambda>r. map (expanded_row mode' (ncols inputs) c r) grid) (rows inputs))"
  using expand_insert_rows expand_replace_rows by blast

lemma length_concat_const:
  "length (concat (map (\<lambda>r. map (h r) grid) rs)) = length rs * length grid"
  by (induction rs) simp_all

lemma expand_inputs_length:
  "mode' = ''insert'' \<or> mode' = ''replace'' \<Longrightarrow>
   length (rows (expand_inputs mode' inputs grid c)) = length (rows inputs) * length grid"
  by (simp add: expand_inputs_rows length_concat_const)


section \<open>The value of \<open>posterior\<close>\<close>

lemma reshape2_Inr:
  "length v = n * g \<Longrightarrow> reshape2 n g v = Inr (map (\<lambda>i. take g (drop (i * g) v)) [0..<n])"
  by (simp add: reshape2_def)

lemma rows_normalized_pdfs:
  "rows (normalized_pdfs A grid l2) =
   map (\<lambda>r. map (\<lambda>y. nan_to_num A (Fin 0) (f_div A (f_exp A y) (trapz A (map (f_exp A) r) grid))) r) l2"
  by (simp add: normalized_pdfs_def Let_def comp_def)


text \<open>
  With checks passed and collaborators that keep their contract on the expanded
  batch, \<open>posterior\<close> returns the normalized rows of the reshaped \<open>log_prob\<close>.
\<close>

lemma posterior_value:
  assumes valid:
      "(mode' = ''insert'' \<and> int (ncols inputs) = input_dim f - 1 \<and>
          (mode = ''insert'' \<or> mode = ''auto'')) \<or>
       (mode' = ''replace'' \<and> int (ncols inputs) = input_dim f \<and>
          (mode = ''replace'' \<or> mode = ''auto''))"
    and conf: "conforms f (expand_inputs mode' inputs grid c)"
  shows "\<exists>lp. log_prob A f (expand_inputs mode' inputs grid c) = Inr lp \<and>
      length lp = length (rows inputs) * length grid \<and>
      posterior A f inputs grid (PyInt c) mode =
        Inr (normalized_pdfs A grid
          (map (\<lambda>i. take (length grid) (drop (i * length grid) lp)) [0..<length (rows inputs)]))"
proof -
  let ?X = "expand_inputs mode' inputs grid c"
  from valid have m: "mode' = ''insert'' \<or> mode' = ''replace''" by blast
  from conf obtain lp where lp: "log_prob A f ?X = Inr lp"
    by (auto simp: log_prob_conforms)
  with conf have "length lp = length (rows ?X)"
    by (rule log_prob_length)
  with m have len: "length lp = length (rows inputs) * length grid"
    by (simp add: expand_inputs_length)
  have "posterior A f inputs grid (PyInt c) mode =
      ebind (log_prob A f ?X) (\<lambda>lp.
      ebind (reshape2 (length (rows inputs)) (length grid) lp) (\<lambda>log_prob2.
        Inr (normalized_pdfs A grid log_prob2)))"
    using valid by (auto simp: posterior_insert posterior_replace)
  with lp len show ?thesis
    by (simp add: reshape2_Inr)
qed

lemma slice_index_clamp: "int n \<le> c \<Longrightarrow> slice_index n c = n"
  by (simp add: slice_index_def)

lemma expand_inputs_insert_clamp:
  "int (ncols inputs) \<le> c \<Longrightarrow>
   expand_inputs ''insert'' inputs grid c = expand_inputs ''insert'' inputs grid (int (ncols inputs))"
  by (simp add: expand_inputs_def slice_index_clamp)

text \<open>
  C10.  In mode \<open>insert\<close> on a batch with \<open>input_dim - 1\<close> columns, an integer
  \<open>column \<ge> input_dim - 1\<close> passes the checks and gives what
  \<open>column = input_dim - 1\<close> gives: the slice bound clamps, so the grid value
  comes after every coordinate of the row.  With collaborators that keep their
  contract the call returns an array.
\<close>

theorem insert_column_clamps:
  assumes n: "int (ncols inputs) = input_dim f - 1" and c: "input_dim f - 1 \<le> c"
  shows "posterior A f inputs grid (PyInt c) ''insert'' =
      posterior A f inputs grid (PyInt (input_dim f - 1)) ''insert'' \<and>
    (\<nexists>m. posterior A f inputs grid (PyInt c) ''insert'' = Inl (ValueError m)) \<and>
    rows (expand_inputs ''insert'' inputs grid c) =
      concat (map (\<lambda>r. map (\<lambda>g. take (ncols inputs) r @ [g] @ drop (ncols inputs) r) grid)
        (rows inputs)) \<and>
    ((\<forall>r \<in> set (rows inputs). length r = ncols inputs) \<longrightarrow>
       rows (expand_inputs ''insert'' inputs grid c) =
         concat (map (\<lambda>r. map (\<lambda>g. r @ [g]) grid) (rows inputs))) \<and>
    (conforms f (expand_inputs ''insert'' inputs grid c) \<longrightarrow>
       (\<exists>out. posterior A f inputs grid (PyInt c) ''insert'' = Inr out))"
proof (intro conjI impI)
  from n c have le: "int (ncols inputs) \<le> c" by simp
  show "posterior A f inputs grid (PyInt c) ''insert'' =
      posterior A f inputs grid (PyInt (input_dim f - 1)) ''insert''"
    using n expand_inputs_insert_clamp [OF le, of grid]
    by (simp add: posterior_insert)
  show "\<nexists>m. posterior A f inputs grid (PyInt c) ''insert'' = Inl (ValueError m)"
    using n by (simp add: posterior_ValueError_iff)
  show exp: "rows (expand_inputs ''insert'' inputs grid c) =
      concat (map (\<lambda>r. map (\<lambda>g. take (ncols inputs) r @ [g] @ drop (ncols inputs) r) grid)
        (rows inputs))"
    by (simp add: expand_insert_rows expanded_row_insert slice_index_clamp [OF le])
  show "rows (expand_inputs ''insert'' inputs grid c) =
         concat (map (\<lambda>r. map (\<lambda>g. r @ [g]) grid) (rows inputs))"
    if "\<forall>r \<in> set (rows inputs). length r = ncols inputs"
    unfolding exp using that by (intro arg_cong [where f = concat] map_cong) simp_all
  show "\<exists>out. posterior A f inputs grid (PyInt c) ''insert'' = Inr out"
    if "conforms f (expand_inputs ''insert'' inputs grid c)"
    using posterior_value [of "''insert''" inputs f "''insert''" grid c A] n that by auto
qed

theorem insert_column_clamps_witness:
  "posterior arith32 (toy_flow 2) \<lparr> ncols = 1, rows = [[Fin 0]] \<rparr> [Fin 0, Fin 1]
     (PyInt 7) ''insert'' =
   posterior arith32 (toy_flow 2) \<lparr> ncols = 1, rows = [[Fin 0]] \<rparr> [Fin 0, Fin 1]
     (PyInt 1) ''insert'' \<and>
   rows (expand_inputs ''insert'' \<lparr> ncols = 1, rows = [[Fin 0]] \<rparr> [Fin 0, Fin 1] 7) =
     [[Fin 0, Fin 0], [Fin 0, Fin 1]] \<and>
   (\<exists>out. posterior arith32 (toy_flow 2) \<lparr> ncols = 1, rows = [[Fin 0]] \<rparr> [Fin 0, Fin 1]
     (PyInt 7) ''insert'' = Inr out)"
proof -
  let ?x = "\<lparr> ncols = 1, rows = [[Fin 0]] \<rparr>"
  have n: "int (ncols ?x) = input_dim (toy_flow 2) - 1"
    by (simp add: toy_flow_def)
  have c: "input_dim (toy_flow 2) - 1 \<le> 7"
    by (simp add: toy_flow_def)
  have d: "input_dim (toy_flow 2) - 1 = 1"
    by (simp add: toy_flow_def)
  have e: "rows (expand_inputs ''insert'' ?x [Fin 0, Fin 1] 7) = [[Fin 0, Fin 0], [Fin 0, Fin 1]]"
    by (simp add: expand_inputs_def slice_index_def np_repeat_def np_tile_def hstack3_def)
  have conf: "conforms (toy_flow 2) (expand_inputs ''insert'' ?x [Fin 0, Fin 1] 7)"
    by (simp add: conforms_def e toy_defs)
  note t = insert_column_clamps [OF n c, of arith32 "[Fin 0, Fin 1]"]
  from t have "posterior arith32 (toy_flow 2) ?x [Fin 0, Fin 1] (PyInt 7) ''insert'' =
      posterior arith32 (toy_flow 2) ?x [Fin 0, Fin 1] (PyInt (input_dim (toy_flow 2) - 1)) ''insert''"
    by (rule conjunct1)
  then have "posterior arith32 (toy_flow 2) ?x [Fin 0, Fin 1] (PyInt 7) ''insert'' =
      posterior arith32 (toy_flow 2) ?x [Fin 0, Fin 1] (PyInt 1) ''insert''"
    by (simp only: d)
  moreover from t conf
  have "\<exists>out. posterior arith32 (toy_flow 2) ?x [Fin 0, Fin 1] (PyInt 7) ''insert'' = Inr out"
    by blast
  ultimately show ?thesis
    using e by blast
qed

lemma ebind_Inr: "ebind x k = Inr b \<Longrightarrow> \<exists>a. x = Inr a \<and> k a = Inr b"
  by (cases x) simp_all

lemma posterior_Inr:
  assumes "posterior A f inputs grid column mode = Inr out"
  shows "\<exists>c lp l2. column = PyInt c \<and>
     log_prob A f (expand_inputs (resolve_mode (input_dim f) (ncols inputs) mode) inputs grid c)
       = Inr lp \<and>
     reshape2 (length (rows inputs)) (length grid) lp = Inr l2 \<and>
     out = normalized_pdfs A grid l2"
proof (cases column)
  case (PyInt c)
  let ?X = "expand_inputs (resolve_mode (input_dim f) (ncols inputs) mode) inputs grid c"
  from assms PyInt have
    "ebind (log_prob A f ?X) (\<lambda>lp.
       ebind (reshape2 (length (rows inputs)) (length grid) lp) (\<lambda>log_prob2.
         Inr (normalized_pdfs A grid log_prob2))) = Inr out"
    by (simp add: posterior_def Let_def split: if_splits)
  then obtain lp where lp: "log_prob A f ?X = Inr lp"
    and "ebind (reshape2 (length (rows inputs)) (length grid) lp) (\<lambda>log_prob2.
         Inr (normalized_pdfs A grid log_prob2)) = Inr out"
    by (blast dest: ebind_Inr)
  then obtain l2 where "reshape2 (length (rows inputs)) (length grid) lp = Inr l2"
    and "out = normalized_pdfs A grid l2"
    by (auto dest!: ebind_Inr)
  with PyInt lp show ?thesis by blast
next
  case PyNone
  with assms show ?thesis by (simp add: posterior_def Let_def split: if_splits)
next
  case PyOther
  with assms show ?thesis by (simp add: posterior_def Let_def split: if_splits)
qed

lemma nan_to_num_cases:
  "z = nan_to_num A (Fin 0) y \<Longrightarrow>
   is_finite z \<and>
   (case y of NaN \<Rightarrow> z = Fin 0
    | PInf \<Rightarrow> z = Fin (f_max A)
    | NInf \<Rightarrow> z = Fin (- f_max A)
    | Fin r \<Rightarrow> z = Fin r)"
  by (cases y) simp_all

text \<open>
  C6 (as amended).  In the array that \<open>posterior\<close> returns, an entry whose
  normalized density is NaN is 0, one whose normalized density is positive
  infinity is the largest finite value, one whose normalized density is
  negative infinity is the most negative finite value, a finite one is
  unchanged; every returned entry is finite.
\<close>

theorem posterior_entries_finite:
  assumes "posterior A f inputs grid column mode = Inr out"
  shows "\<exists>c lp l2. column = PyInt c \<and>
     log_prob A f (expand_inputs (resolve_mode (input_dim f) (ncols inputs) mode) inputs grid c)
       = Inr lp \<and>
     reshape2 (length (rows inputs)) (length grid) lp = Inr l2 \<and>
     length (rows out) = length l2 \<and>
     (\<forall>i < length l2. length (rows out ! i) = length (l2 ! i) \<and>
        (\<forall>j < length (l2 ! i).
           is_finite (rows out ! i ! j) \<and>
           (case f_div A (f_exp A (l2 ! i ! j)) (trapz A (map (f_exp A) (l2 ! i)) grid) of
              NaN \<Rightarrow> rows out ! i ! j = Fin 0
            | PInf \<Rightarrow> rows out ! i ! j = Fin (f_max A)
            | NInf \<Rightarrow> rows out ! i ! j = Fin (- f_max A)
            | Fin r \<Rightarrow> rows out ! i ! j = Fin r)))"
proof -
  from posterior_Inr [OF assms] obtain c lp l2 where c: "column = PyInt c"
    and lp: "log_prob A f
        (expand_inputs (resolve_mode (input_dim f) (ncols inputs) mode) inputs grid c) = Inr lp"
    and l2: "reshape2 (length (rows inputs)) (length grid) lp = Inr l2"
    and out: "out = normalized_pdfs A grid l2"
    by blast
  have "length (rows out) = length l2"
    by (simp add: out rows_normalized_pdfs)
  moreover have "length (rows out ! i) = length (l2 ! i)" if "i < length l2" for i
    using that by (simp add: out rows_normalized_pdfs)
  moreover have "is_finite (rows out ! i ! j) \<and>
           (case f_div A (f_exp A (l2 ! i ! j)) (trapz A (map (f_exp A) (l2 ! i)) grid) of
              NaN \<Rightarrow> rows out ! i ! j = Fin 0
            | PInf \<Rightarrow> rows out ! i ! j = Fin (f_max A)
            | NInf \<Rightarrow> rows out ! i ! j = Fin (- f_max A)
            | Fin r \<Rightarrow> rows out ! i ! j = Fin r)"
    if "i < length l2" and "j < length (l2 ! i)" for i j
  proof -
    have "rows out ! i ! j = nan_to_num A (Fin 0)
        (f_div A (f_exp A (l2 ! i ! j)) (trapz A (map (f_exp A) (l2 ! i)) grid))"
      using that by (simp add: out rows_normalized_pdfs)
    then show ?thesis
      by (rule nan_to_num_cases)
  qed
  ultimately show ?thesis
    using c lp l2 by blast
qed

lemmas posterior_run_defs =
  posterior_def resolve_mode_def expand_inputs_def index_update_col_def np_repeat_def
  np_tile_def hstack3_def slice_index_def log_prob_def vec_add_def reshape2_def
  normalized_pdfs_def trapz_def np_diff_def

theorem posterior_infinite_density_counterexample:
  "log_prob arith32 (toy_flow 1) \<lparr> ncols = 1, rows = [[Fin 0]] \<rparr> = Inr [Fin 0] \<and>
   f_div arith32 (f_exp arith32 (Fin 0)) (trapz arith32 [f_exp arith32 (Fin 0)] [Fin 0]) = PInf \<and>
   posterior arith32 (toy_flow 1) \<lparr> ncols = 1, rows = [[Fin 0]] \<rparr> [Fin 0] (PyInt 0) ''replace'' =
     Inr \<lparr> ncols = 1, rows = [[Fin float32_max]] \<rparr> \<and>
   Fin float32_max \<noteq> Fin 0"
  by (simp add: posterior_run_defs toy_defs float32_max_def)

theorem posterior_entries_finite_witness:
  "posterior arith32 (toy_flow 1) \<lparr> ncols = 1, rows = [[Fin 0]] \<rparr> [Fin 0] (PyInt 0) ''auto'' =
     Inr \<lparr> ncols = 1, rows = [[Fin float32_max]] \<rparr> \<and>
   is_finite (rows \<lparr> ncols = 1, rows = [[Fin float32_max]] \<rparr> ! 0 ! 0)"
proof -
  let ?out = "\<lparr> ncols = 1, rows = [[Fin float32_max]] \<rparr>"
  have p: "posterior arith32 (toy_flow 1) \<lparr> ncols = 1, rows = [[Fin 0]] \<rparr> [Fin 0] (PyInt 0)
      ''auto'' = Inr ?out"
    by (simp add: posterior_run_defs toy_defs float32_max_def)
  from posterior_entries_finite [OF p] obtain l2 where len: "length (rows ?out) = length l2"
    and e: "\<forall>i < length l2. length (rows ?out ! i) = length (l2 ! i) \<and>
        (\<forall>j < length (l2 ! i). is_finite (rows ?out ! i ! j) \<and>
           (case f_div arith32 (f_exp arith32 (l2 ! i ! j))
                (trapz arith32 (map (f_exp arith32) (l2 ! i)) [Fin 0]) of
              NaN \<Rightarrow> rows ?out ! i ! j = Fin 0
            | PInf \<Rightarrow> rows ?out ! i ! j = Fin (f_max arith32)
            | NInf \<Rightarrow> rows ?out ! i ! j = Fin (- f_max arith32)
            | Fin r \<Rightarrow> rows ?out ! i ! j = Fin r))"
    by blast
  from len have l: "0 < length l2" by (cases l2) simp_all
  with e have "length (rows ?out ! 0) = length (l2 ! 0)" by blast
  then have "0 < length (l2 ! 0)" by (cases "l2 ! 0") simp_all
  with e l have "is_finite (rows ?out ! 0 ! 0)" by blast
  with p show ?thesis by blast
qed

section \<open>The shape and the rows of \<open>posterior\<close>\<close>






section \<open>Properties of \<open>train\<close>\<close>

lemma run_epochs_losses:
  assumes "run_epochs A L f (opt_init, opt_update, get_params) inputs batch_size n st losses
      = Inr (st', losses')"
  shows "epochs_state A L f (opt_init, opt_update, get_params) inputs batch_size st n = Inr st' \<and>
    length losses' = length losses + n \<and>
    take (length losses) losses' = losses \<and>
    (\<forall>k < n. \<exists>stk.
       epochs_state A L f (opt_init, opt_update, get_params) inputs batch_size st (Suc k) = Inr stk \<and>
       loss A f (get_params (snd (snd stk))) inputs = Inr (losses' ! (length losses + k)))"
  using assms
proof (induction n arbitrary: st losses)
  case 0
  then show ?case by simp
next
  case (Suc n)
  let ?opt = "(opt_init, opt_update, get_params)"
  from Suc.prems obtain st1 where ep: "epoch A L f ?opt inputs batch_size st = Inr st1"
    and rest1: "ebind (loss A f (get_params (snd (snd st1))) inputs) (\<lambda>l.
            run_epochs A L f ?opt inputs batch_size n st1 (losses @ [l])) = Inr (st', losses')"
    by (auto simp: Let_def dest!: ebind_Inr)
  then obtain l where l: "loss A f (get_params (snd (snd st1))) inputs = Inr l"
    and rest: "run_epochs A L f ?opt inputs batch_size n st1 (losses @ [l]) = Inr (st', losses')"
    by (auto dest!: ebind_Inr)
  from Suc.IH [OF rest] have st': "epochs_state A L f ?opt inputs batch_size st1 n = Inr st'"
    and len: "length losses' = length losses + Suc n"
    and tk: "take (Suc (length losses)) losses' = losses @ [l]"
    and later: "\<forall>k < n. \<exists>stk.
       epochs_state A L f ?opt inputs batch_size st1 (Suc k) = Inr stk \<and>
       loss A f (get_params (snd (snd stk))) inputs = Inr (losses' ! (Suc (length losses) + k))"
    by simp_all
  from tk have "take (length losses) (take (Suc (length losses)) losses') = losses"
    by simp
  then have tk0: "take (length losses) losses' = losses"
    by (simp add: min_def)
  from tk len have "take (Suc (length losses)) losses' ! length losses = l"
    by simp
  then have at: "losses' ! length losses = l"
    by simp
  have "\<exists>stk. epochs_state A L f ?opt inputs batch_size st (Suc k) = Inr stk \<and>
       loss A f (get_params (snd (snd stk))) inputs = Inr (losses' ! (length losses + k))"
    if "k < Suc n" for k
  proof (cases k)
    case 0
    with ep l at show ?thesis by simp
  next
    case (Suc k')
    with that have "k' < n" by simp
    with later Suc ep show ?thesis by simp
  qed
  with ep st' len tk0 show ?case by simp
qed

lemma run_batches_total:
  assumes "\<And>i s x. \<exists>s'. stp i s x = Inr s'"
  shows "\<exists>r. run_batches stp X k idxs ic s = Inr r"
proof (induction idxs arbitrary: ic s)
  case Nil
  show ?case by simp
next
  case (Cons b idxs)
  from assms obtain s' where "stp (int ic) s (slice_rows X b k) = Inr s'"
    by blast
  with Cons.IH [of "Suc ic" s'] show ?case by simp
qed

lemma step_total:
  assumes "\<And>p x. \<exists>g. grad L (loss A f) p x = Inr g"
  shows "\<exists>s'. step A L f opt i s x = Inr s'"
proof -
  obtain opt_init opt_update get_params where opt: "opt = (opt_init, opt_update, get_params)"
    by (cases opt)
  from assms obtain g where "grad L (loss A f) (get_params s) x = Inr g"
    by blast
  with opt show ?thesis by (simp add: step_def)
qed

lemma epoch_total:
  assumes "batch_size \<noteq> 0" and "\<And>p x. \<exists>g. grad L (loss A f) p x = Inr g"
  shows "\<exists>st'. epoch A L f opt inputs batch_size st = Inr st'"
proof -
  obtain rng ic s where st: "st = (rng, ic, s)"
    using prod_cases3 by blast
  obtain permute_rng rng' where sp: "random_split L rng = (permute_rng, rng')"
    by (cases "random_split L rng")
  let ?X = "random_permutation L permute_rng inputs"
  from assms(1) have "\<exists>idxs. range_step (length (rows ?X)) batch_size = Inr idxs"
    by (simp add: range_step_def)
  then obtain idxs where r: "range_step (length (rows ?X)) batch_size = Inr idxs" ..
  have "\<exists>q. run_batches (step A L f opt) ?X (nat batch_size) idxs ic s = Inr q"
    by (rule run_batches_total) (rule step_total, rule assms(2))
  then obtain q where "run_batches (step A L f opt) ?X (nat batch_size) idxs ic s = Inr q" ..
  with st sp r show ?thesis
    by (cases q) (simp add: epoch_def)
qed

lemma run_epochs_total:
  assumes "batch_size \<noteq> 0 \<or> n = 0" and "\<And>p x. \<exists>l. loss A f p x = Inr l"
    and "\<And>p x. \<exists>g. grad L (loss A f) p x = Inr g"
  shows "\<exists>r. run_epochs A L f opt inputs batch_size n st losses = Inr r"
  using assms(1)
proof (induction n arbitrary: st losses)
  case 0
  show ?case by (simp del: split_paired_Ex)
next
  case (Suc n)
  then have bs: "batch_size \<noteq> 0" by simp
  obtain opt_init opt_update get_params where opt: "opt = (opt_init, opt_update, get_params)"
    by (cases opt)
  from epoch_total [OF bs assms(3)] obtain st1
    where ep: "epoch A L f opt inputs batch_size st = Inr st1"
    by blast
  from assms(2) obtain l where l: "loss A f (get_params (snd (snd st1))) inputs = Inr l"
    by blast
  from Suc.IH [of st1 "losses @ [l]"] bs ep l opt show ?case
    by simp
qed

text \<open>
  C3.  A call of \<open>train\<close> with a number of epochs \<open>epochs \<ge> 0\<close> that returns
  gives a list of \<open>epochs + 1\<close> losses.  The optimizer starts from \<open>opt_init\<close>
  of the current parameters; the first loss is that of the parameters before
  training on the whole input; loss \<open>k\<close> is that of the parameters after \<open>k\<close>
  epochs on the whole unpermuted input; the returned object differs from the
  old one in \<open>params\<close> only, which is \<open>get_params\<close> of the last optimizer
  state.  The call returns whenever the batch size is not zero (or no epoch is
  run) and the loss and its gradient are defined on every batch.
\<close>

theorem train_losses:
  "(train A L f inputs epochs batch_size (opt_init, opt_update, get_params) seed verbose
      = Inr (losses, f') \<longrightarrow>
      length losses = nat epochs + 1 \<and>
      (0 \<le> epochs \<longrightarrow> int (length losses) = epochs + 1) \<and>
      loss A f (params f) inputs = Inr (losses ! 0) \<and>
      (\<forall>k. 1 \<le> k \<and> k \<le> nat epochs \<longrightarrow>
         (\<exists>st. epochs_state A L f (opt_init, opt_update, get_params) inputs batch_size
                 (random_PRNGKey L seed, 0, opt_init (params f)) k = Inr st \<and>
               loss A f (get_params (snd (snd st))) inputs = Inr (losses ! k))) \<and>
      (\<exists>st. epochs_state A L f (opt_init, opt_update, get_params) inputs batch_size
              (random_PRNGKey L seed, 0, opt_init (params f)) (nat epochs) = Inr st \<and>
            f' = f\<lparr> params := get_params (snd (snd st)) \<rparr>)) \<and>
   ((batch_size \<noteq> 0 \<or> epochs \<le> 0) \<and> (\<forall>p x. \<exists>l. loss A f p x = Inr l) \<and>
    (\<forall>p x. \<exists>g. grad L (loss A f) p x = Inr g) \<longrightarrow>
      (\<exists>losses f'. train A L f inputs epochs batch_size (opt_init, opt_update, get_params)
          seed verbose = Inr (losses, f')))"
proof (intro conjI impI)
  let ?opt = "(opt_init, opt_update, get_params)"
  let ?st0 = "(random_PRNGKey L seed, 0 :: nat, opt_init (params f))"
  assume "(batch_size \<noteq> 0 \<or> epochs \<le> 0) \<and> (\<forall>p x. \<exists>l. loss A f p x = Inr l) \<and>
    (\<forall>p x. \<exists>g. grad L (loss A f) p x = Inr g)"
  then have bs: "batch_size \<noteq> 0 \<or> nat epochs = 0"
    and lt: "\<And>p x. \<exists>l. loss A f p x = Inr l"
    and gt: "\<And>p x. \<exists>g. grad L (loss A f) p x = Inr g"
    by auto
  from lt obtain l0 where l0: "loss A f (params f) inputs = Inr l0"
    by blast
  from run_epochs_total [OF bs lt gt, of ?opt inputs ?st0 "[l0]"]
  obtain st ls where "run_epochs A L f ?opt inputs batch_size (nat epochs) ?st0 [l0] = Inr (st, ls)"
    by auto
  with l0 show "\<exists>losses f'. train A L f inputs epochs batch_size ?opt seed verbose = Inr (losses, f')"
    by (simp add: train_def)
next
  let ?opt = "(opt_init, opt_update, get_params)"
  let ?st0 = "(random_PRNGKey L seed, 0 :: nat, opt_init (params f))"
  assume tr: "train A L f inputs epochs batch_size ?opt seed verbose = Inr (losses, f')"
  then obtain l0 where l0: "loss A f (params f) inputs = Inr l0"
    and "ebind (run_epochs A L f ?opt inputs batch_size (nat epochs) ?st0 [l0])
          (\<lambda>(st, losses). Inr (losses, f\<lparr> params := get_params (snd (snd st)) \<rparr>))
        = Inr (losses, f')"
    by (auto simp: train_def dest!: ebind_Inr)
  then obtain st where run: "run_epochs A L f ?opt inputs batch_size (nat epochs) ?st0 [l0]
        = Inr (st, losses)"
    and f': "f' = f\<lparr> params := get_params (snd (snd st)) \<rparr>"
    by (auto dest!: ebind_Inr)
  from run_epochs_losses [OF run]
  have fin: "epochs_state A L f ?opt inputs batch_size ?st0 (nat epochs) = Inr st"
    and len: "length losses = nat epochs + 1"
    and first: "take 1 losses = [l0]"
    and later: "\<forall>k < nat epochs. \<exists>stk.
       epochs_state A L f ?opt inputs batch_size ?st0 (Suc k) = Inr stk \<and>
       loss A f (get_params (snd (snd stk))) inputs = Inr (losses ! (1 + k))"
    by simp_all
  show "length losses = nat epochs + 1"
    by (rule len)
  show "int (length losses) = epochs + 1" if "0 \<le> epochs"
    using len that by simp
  from first len have "losses ! 0 = l0"
    by (cases losses) simp_all
  with l0 show "loss A f (params f) inputs = Inr (losses ! 0)"
    by simp
  show "\<forall>k. 1 \<le> k \<and> k \<le> nat epochs \<longrightarrow>
         (\<exists>st. epochs_state A L f ?opt inputs batch_size ?st0 k = Inr st \<and>
               loss A f (get_params (snd (snd st))) inputs = Inr (losses ! k))"
  proof (intro allI impI)
    fix k
    assume "1 \<le> k \<and> k \<le> nat epochs"
    then obtain k' where "k = Suc k'" and "k' < nat epochs"
      by (cases k) auto
    with later show "\<exists>st. epochs_state A L f ?opt inputs batch_size ?st0 k = Inr st \<and>
               loss A f (get_params (snd (snd st))) inputs = Inr (losses ! k)"
      by simp
  qed
  from fin f' show "\<exists>st. epochs_state A L f ?opt inputs batch_size ?st0 (nat epochs) = Inr st \<and>
            f' = f\<lparr> params := get_params (snd (snd st)) \<rparr>"
    by blast
qed

theorem train_losses_witness:
  "\<exists>losses f'.
     train arith32 toy_deps (toy_flow 1) \<lparr> ncols = 1, rows = [[Fin 0], [Fin 2]] \<rparr> 2 1
       toy_optimizer 0 False = Inr (losses, f') \<and>
     length losses = 3 \<and>
     loss arith32 (toy_flow 1) (params (toy_flow 1)) \<lparr> ncols = 1, rows = [[Fin 0], [Fin 2]] \<rparr>
       = Inr (losses ! 0)"
proof -
  let ?x = "\<lparr> ncols = 1, rows = [[Fin 0], [Fin 2]] \<rparr>"
  have lt: "\<exists>l. loss arith32 (toy_flow 1) p x = Inr l" for p x
    by (simp add: loss_def vec_add_def toy_defs)
  have gt: "\<exists>g. grad toy_deps (loss arith32 (toy_flow 1)) p x = Inr g" for p x
  proof -
    from lt obtain l where "loss arith32 (toy_flow 1) p x = Inr l" by blast
    then show ?thesis by (simp add: toy_deps_def)
  qed
  note t = train_losses [of arith32 toy_deps "toy_flow 1" ?x 2 1 "\<lambda>p. p" "\<lambda>i g s. s - g / 2"
      "\<lambda>s. s" 0 False, folded toy_optimizer_def]
  from lt gt have "(1 \<noteq> (0 :: int) \<or> 2 \<le> (0 :: int)) \<and>
      (\<forall>p x. \<exists>l. loss arith32 (toy_flow 1) p x = Inr l) \<and>
      (\<forall>p x. \<exists>g. grad toy_deps (loss arith32 (toy_flow 1)) p x = Inr g)"
    by simp
  with t have "\<exists>losses f'.
      train arith32 toy_deps (toy_flow 1) ?x 2 1 toy_optimizer 0 False = Inr (losses, f')"
    by (rule conjunct2 [THEN mp])
  then obtain losses f' where
    tr: "train arith32 toy_deps (toy_flow 1) ?x 2 1 toy_optimizer 0 False = Inr (losses, f')"
    by blast
  with train_losses [of arith32 toy_deps "toy_flow 1" ?x 2 1 "\<lambda>p. p" "\<lambda>i g s. s - g / 2"
      "\<lambda>s. s" 0 False losses f', folded toy_optimizer_def]
  have "length losses = 3"
    and "loss arith32 (toy_flow 1) (params (toy_flow 1)) ?x = Inr (losses ! 0)"
    by simp_all
  with tr show ?thesis by blast
qed

text \<open>
  With a batch size of zero and at least one epoch, \<^verbatim>\<open>range\<close> raises in the
  first epoch, after the first loss has been computed; the object is not
  assigned to.
\<close>

lemma train_zero_batch_size:
  assumes "0 < epochs" and "loss A f (params f) inputs = Inr l0"
  shows "train A L f inputs epochs 0 opt seed verbose =
    Inl (ValueError ''range() arg 3 must not be zero'')"
proof -
  obtain opt_init opt_update get_params where opt: "opt = (opt_init, opt_update, get_params)"
    by (cases opt)
  from assms(1) obtain n where n: "nat epochs = Suc n"
    by (cases "nat epochs") simp_all
  have "epoch A L f opt inputs 0 st = Inl (ValueError ''range() arg 3 must not be zero'')" for st
    by (cases st) (simp add: epoch_def range_step_def split: prod.split)
  with opt n assms(2) show ?thesis
    by (simp add: train_def)
qed

end
